theory Spec2Isabelle
  imports Complex_Main "HOL-Library.Char_ord" "HOL-Library.List_Lexorder"
begin

section \<open>Python values, errors and string primitives\<close>

text \<open>
  Strings are \<open>char list\<close>; the development covers ASCII text, where a Python character
  is one \<open>char\<close>. Exceptions are values of \<open>pyerror\<close>; a function that may raise returns
  \<open>pyerror + 'a\<close> with \<open>Inl\<close> for the exception.
\<close>

datatype pyerror =
  AssertionError | ValueError | TypeError | AttributeError | ZeroDivisionError
  | IndexError | KeyError | ReError

text \<open>The JSON-like values a raw record holds: mappings have string keys and keep their order.\<close>

datatype pyval =
  PNone | PInt int | PStr string | PList "pyval list" | PDict "(string \<times> pyval) list"

text \<open>\<open>str.upper()\<close> on ASCII text.\<close>

definition upper_char :: "char \<Rightarrow> char" where
  "upper_char c =
     (case map_of (zip ''abcdefghijklmnopqrstuvwxyz'' ''ABCDEFGHIJKLMNOPQRSTUVWXYZ'') c of
        Some u \<Rightarrow> u | None \<Rightarrow> c)"

definition upper :: "string \<Rightarrow> string" where
  "upper s = map upper_char s"

text \<open>\<open>sub in s\<close> for strings.\<close>

fun str_in :: "string \<Rightarrow> string \<Rightarrow> bool" where
  "str_in sub [] = (sub = [])"
| "str_in sub (x # xs) = (take (length sub) (x # xs) = sub \<or> str_in sub xs)"

text \<open>
  \<open>s.replace(old, new)\<close>: occurrences are replaced from the left without overlap; an
  empty \<open>old\<close> inserts \<open>new\<close> before every character and at the end.
\<close>

function replace_scan :: "string \<Rightarrow> string \<Rightarrow> string \<Rightarrow> string" where
  "replace_scan old new [] = []"
| "replace_scan old new (x # xs) =
     (if old \<noteq> [] \<and> take (length old) (x # xs) = old
      then new @ replace_scan old new (drop (length old) (x # xs))
      else x # replace_scan old new xs)"
  by pat_completeness auto
termination
  by (relation "measure (\<lambda>(old, new, s). length s)") (auto simp: neq_Nil_conv)

definition str_replace :: "string \<Rightarrow> string \<Rightarrow> string \<Rightarrow> string" where
  "str_replace old new s =
     (if old = [] then new @ concat (map (\<lambda>c. c # new) s) else replace_scan old new s)"

text \<open>\<open>s.split(c)\<close> for a one-character separator: never empty, \<open>''.split('/') = ['']\<close>.\<close>

fun split :: "char \<Rightarrow> string \<Rightarrow> string list" where
  "split c [] = [[]]"
| "split c (x # xs) =
     (if x = c then [] # split c xs
      else (case split c xs of w # ws \<Rightarrow> (x # w) # ws | [] \<Rightarrow> [[x]]))"

text \<open>\<open>tools.flatten_list\<close>; its argument is a list of lists by type, so the assertion holds.\<close>

definition flatten_list :: "'a list list \<Rightarrow> 'a list" where
  "flatten_list list_to_flatten = concat list_to_flatten"

text \<open>Running a list of fallible computations from the left, as a list comprehension does.\<close>

fun collect :: "('e + 'a) list \<Rightarrow> 'e + 'a list" where
  "collect [] = Inr []"
| "collect (r # rs) =
     (case r of Inl e \<Rightarrow> Inl e
      | Inr v \<Rightarrow> (case collect rs of Inl e \<Rightarrow> Inl e | Inr vs \<Rightarrow> Inr (v # vs)))"

section \<open>The regular-expression and edit-distance libraries\<close>

text \<open>
  Python's \<open>re\<close> module is a collaborator of the program. It is a parameter of the model:
  \<open>re ignore_case pattern\<close> is \<open>re.compile(pattern[, re.IGNORECASE])\<close>, either the
  exception of an invalid pattern or the compiled pattern's \<open>search\<close>, which tells whether
  the pattern matches somewhere in a string.
\<close>

type_synonym re_module = "bool \<Rightarrow> string \<Rightarrow> pyerror + (string \<Rightarrow> bool)"

text \<open>
  \<open>re_literal\<close> is \<open>re\<close> on the patterns that contain no metacharacter: such a pattern
  matches itself, anywhere in the string, letters compared without case under
  \<open>re.IGNORECASE\<close>. Every other pattern is answered with \<open>ReError\<close>: that is what
  \<open>re.compile\<close> does with a pattern such as \<open>TEXAS(\<close>, whose parenthesis is not closed,
  and the other patterns with metacharacters are outside this instance. It is used at
  concrete inputs only.
\<close>

definition re_metachars :: string where
  "re_metachars = [CHR ''.'', CHR ''^'', CHR ''$'', CHR ''*'', CHR ''+'', CHR ''?'', CHR ''{'',
     CHR ''}'', CHR ''['', CHR '']'', CHR 0x5C, CHR ''|'', CHR ''('', CHR '')'']"

definition re_literal :: re_module where
  "re_literal ignore_case pattern =
     (if \<exists>c \<in> set pattern. c \<in> set re_metachars then Inl ReError
      else Inr (\<lambda>s. if ignore_case then str_in (upper pattern) (upper s)
                     else str_in pattern s))"

text \<open>\<open>editdistance.eval\<close>: the Levenshtein distance of two strings.\<close>

fun ed_eval :: "string \<Rightarrow> string \<Rightarrow> nat" where
  "ed_eval [] ys = length ys"
| "ed_eval (x # xs) [] = Suc (length xs)"
| "ed_eval (x # xs) (y # ys) =
     (if x = y then ed_eval xs ys
      else Suc (min (ed_eval xs ys) (min (ed_eval xs (y # ys)) (ed_eval (x # xs) ys))))"

section \<open>CityList.py\<close>

definition replace_chars :: "string list" where
  "replace_chars = [''-'', ''_'', '' '', ''/'']"

text \<open>
  \<open>generate_city_aliases\<close>: \<open>aliases[0]\<close> is the upper-cased name throughout, since the
  loop only appends. The inner loop runs over the separators after \<open>char1\<close> and the
  empty string.
\<close>

definition generate_city_aliases :: "string \<Rightarrow> string list" where
  "generate_city_aliases name =
     (let alias0 = upper name in
      alias0 # concat (map (\<lambda>ind1.
        concat (map (\<lambda>char2.
          if str_in (replace_chars ! ind1) alias0
          then [str_replace (replace_chars ! ind1) char2 alias0] else [])
          (drop (ind1 + 1) replace_chars @ [''''])))
        [0 ..< length replace_chars]))"

record City =
  name :: string
  abb :: string
  aliases :: "string list"

definition City_init :: "string \<Rightarrow> string \<Rightarrow> City" where
  "City_init nm ab = \<lparr>name = upper nm, abb = ab, aliases = generate_city_aliases nm\<rparr>"

text \<open>
  \<open>City.match\<close>: the loop over the query aliases compiles each one and returns at the
  first that is found in some city alias; an alias after the hit is never compiled.
\<close>

fun match_loop :: "re_module \<Rightarrow> bool \<Rightarrow> string list \<Rightarrow> string list \<Rightarrow> pyerror + bool" where
  "match_loop re exact_match city_aliases [] = Inr False"
| "match_loop re exact_match city_aliases (query # rest) =
     (case re True (if exact_match then ''^'' @ query @ ''$'' else query) of
        Inl e \<Rightarrow> Inl e
      | Inr compiled \<Rightarrow>
          if \<exists>x \<in> set city_aliases. compiled x then Inr True
          else match_loop re exact_match city_aliases rest)"

definition match :: "re_module \<Rightarrow> City \<Rightarrow> string \<Rightarrow> bool \<Rightarrow> bool \<Rightarrow> pyerror + bool" where
  "match re city query aliasing exact_match =
     (let query_aliases = (if aliasing then generate_city_aliases query else [query]);
          city_aliases = (if aliasing then aliases city else [name city])
      in match_loop re exact_match city_aliases query_aliases)"

text \<open>\<open>min\<close> of a Python list raises \<open>ValueError\<close> on the empty list, as \<open>np.min\<close> does.\<close>

definition py_min :: "'a::linorder list \<Rightarrow> pyerror + 'a" where
  "py_min xs = (case xs of [] \<Rightarrow> Inl ValueError | y # ys \<Rightarrow> Inr (fold min ys y))"

definition py_max :: "'a::linorder list \<Rightarrow> pyerror + 'a" where
  "py_max xs = (case xs of [] \<Rightarrow> Inl ValueError | y # ys \<Rightarrow> Inr (fold max ys y))"

definition ematch :: "City \<Rightarrow> string \<Rightarrow> bool \<Rightarrow> pyerror + nat" where
  "ematch city query aliasing =
     (let lookup_vals = (if aliasing then aliases city else [name city])
      in py_min (map (\<lambda>x. ed_eval x query) lookup_vals))"

text \<open>\<open>CityList.__init__\<close>: one City per entry of the code table, in the table's order.\<close>

definition CityList_init :: "(string \<times> string) list \<Rightarrow> City list" where
  "CityList_init city_map = map (\<lambda>(ab, city_name). City_init city_name ab) city_map"

definition search :: "re_module \<Rightarrow> City list \<Rightarrow> string \<Rightarrow> bool \<Rightarrow> bool \<Rightarrow> bool \<Rightarrow> pyerror + City list" where
  "search re cities query split_flag aliasing exact_match =
     (let query_list = (if split_flag then filter (\<lambda>x. length x > 2) (split CHR ''/'' query)
                        else [query])
      in case collect (map (\<lambda>q.
                case collect (map (\<lambda>city. match re city q aliasing exact_match) cities) of
                  Inl e \<Rightarrow> Inl e
                | Inr hits \<Rightarrow> Inr (map fst (filter snd (zip cities hits)))) query_list) of
           Inl e \<Rightarrow> Inl e
         | Inr found \<Rightarrow> Inr (concat found))"

text \<open>
  \<open>CityList.esearch\<close>: the second component is the minimum distance, or the float
  \<open>len(query)/2\<close>, which is exact; it is a rational here.
\<close>

definition argwhere_eq :: "'a list \<Rightarrow> 'a \<Rightarrow> nat list" where
  "argwhere_eq xs v = filter (\<lambda>i. xs ! i = v) [0 ..< length xs]"

definition esearch :: "City list \<Rightarrow> string \<Rightarrow> bool \<Rightarrow> pyerror + (City list \<times> rat)" where
  "esearch cities query aliasing =
     (case collect (map (\<lambda>city. ematch city query aliasing) cities) of
        Inl e \<Rightarrow> Inl e
      | Inr edistances \<Rightarrow>
          (case py_min edistances of
             Inl e \<Rightarrow> Inl e
           | Inr min_edist \<Rightarrow>
               if of_nat min_edist < (of_nat (length query) :: rat) / 2
               then Inr (map (\<lambda>x. cities ! x) (argwhere_eq edistances min_edist),
                         of_nat min_edist)
               else Inr ([], of_nat (length query) / 2)))"

section \<open>tools.py\<close>

text \<open>
  The comparison \<open>dict_search\<close> builds from its arguments: the search of the compiled
  pattern when \<open>regexp\<close>, equality with the (upper-cased) search value otherwise.
  Compiling may raise.
\<close>

definition comparitor :: "re_module \<Rightarrow> string \<Rightarrow> bool \<Rightarrow> bool \<Rightarrow> pyerror + (string \<Rightarrow> bool)" where
  "comparitor re search_value ignore_case regexp =
     (if regexp then re ignore_case search_value
      else Inr (\<lambda>y. (if ignore_case then upper search_value else search_value) = y))"

text \<open>
  \<open>dict_search\<close> compiles the comparison, then runs its two loops: over the keys,
  and for each key over the value (or the elements of a list value). A mapping is
  searched recursively, a string is compared, anything else is skipped; the first hit
  returns True.
\<close>

function dict_search ::
    "re_module \<Rightarrow> (string \<times> pyval) list \<Rightarrow> string \<Rightarrow> bool \<Rightarrow> bool \<Rightarrow> pyerror + bool"
  and search_keys ::
    "re_module \<Rightarrow> (string \<Rightarrow> bool) \<Rightarrow> (string \<times> pyval) list \<Rightarrow> string \<Rightarrow> bool \<Rightarrow> bool
      \<Rightarrow> pyerror + bool"
  and search_values ::
    "re_module \<Rightarrow> (string \<Rightarrow> bool) \<Rightarrow> pyval list \<Rightarrow> string \<Rightarrow> bool \<Rightarrow> bool \<Rightarrow> pyerror + bool"
where
  "dict_search re dictionary search_value ignore_case regexp =
     (case comparitor re search_value ignore_case regexp of
        Inl e \<Rightarrow> Inl e
      | Inr compare \<Rightarrow> search_keys re compare dictionary search_value ignore_case regexp)"
| "search_keys re compare [] search_value ignore_case regexp = Inr False"
| "search_keys re compare ((key, lookup_values) # rest) search_value ignore_case regexp =
     (case search_values re compare
             (case lookup_values of PList l \<Rightarrow> l | _ \<Rightarrow> [lookup_values])
             search_value ignore_case regexp of
        Inl e \<Rightarrow> Inl e
      | Inr hit \<Rightarrow>
          if hit then Inr True
          else search_keys re compare rest search_value ignore_case regexp)"
| "search_values re compare [] search_value ignore_case regexp = Inr False"
| "search_values re compare (lookup_value # rest) search_value ignore_case regexp =
     (case (case lookup_value of
              PDict d \<Rightarrow> dict_search re d search_value ignore_case regexp
            | PStr s \<Rightarrow> Inr (compare (if ignore_case then upper s else s))
            | _ \<Rightarrow> Inr False) of
        Inl e \<Rightarrow> Inl e
      | Inr hit \<Rightarrow>
          if hit then Inr True
          else search_values re compare rest search_value ignore_case regexp)"
  by pat_completeness auto
termination
  by (relation "measure (\<lambda>x. case x of
        Inl (re, dictionary, rest) \<Rightarrow> Suc (size_list (size_prod (\<lambda>_. 0) size) dictionary)
      | Inr (Inl (re, compare, dictionary, rest)) \<Rightarrow>
          size_list (size_prod (\<lambda>_. 0) size) dictionary
      | Inr (Inr (re, compare, lookups, rest)) \<Rightarrow> size_list size lookups)")
    (auto split: pyval.splits)

text \<open>
  \<open>list(iter(v))\<close>: the elements of a list, the characters of a string, the keys of a
  mapping; \<open>None\<close> where \<open>iter\<close> raises TypeError.
\<close>

definition py_iter :: "pyval \<Rightarrow> pyval list option" where
  "py_iter v =
     (case v of
        PList l \<Rightarrow> Some l
      | PStr s \<Rightarrow> Some (map (\<lambda>c. PStr [c]) s)
      | PDict d \<Rightarrow> Some (map (\<lambda>(k, _). PStr k) d)
      | _ \<Rightarrow> None)"

text \<open>
  \<open>deep_eq\<close>. Only the first argument is tested for being a string or a mapping. Where
  the comparison is \<open>operator.eq\<close>, one side is a scalar, and Python's \<open>==\<close> is the
  equality of the values. \<open>sum(...) == len(...)\<close> runs every comparison.
\<close>

function deep_eq :: "pyval \<Rightarrow> pyval \<Rightarrow> pyerror + bool" where
  "deep_eq (PStr s) v2 = Inr (PStr s = v2)"
| "deep_eq (PDict d1) v2 =
     (case v2 of
        PDict d2 \<Rightarrow>
          (let k1 = sort (map fst d1); k2 = sort (map fst d2) in
           if k1 \<noteq> k2 then Inr False
           else (case collect (map (\<lambda>k.
                        (case map_of d1 k of
                           None \<Rightarrow> Inl KeyError
                         | Some a \<Rightarrow> (case map_of d2 k of
                                        None \<Rightarrow> Inl KeyError
                                      | Some b \<Rightarrow> deep_eq a b))) k1) of
                   Inl e \<Rightarrow> Inl e
                 | Inr rs \<Rightarrow> Inr (length (filter id rs) = length k1)))
      | _ \<Rightarrow> Inl AttributeError)"
| "deep_eq (PList l1) v2 =
     (case py_iter v2 of
        None \<Rightarrow> Inr (PList l1 = v2)
      | Some l2 \<Rightarrow>
          if length l1 \<noteq> length l2 then Inr False
          else (case collect (map (\<lambda>(a, b). deep_eq a b) (zip l1 l2)) of
                  Inl e \<Rightarrow> Inl e
                | Inr rs \<Rightarrow> Inr (length (filter id rs) = length l1)))"
| "deep_eq PNone v2 = Inr (PNone = v2)"
| "deep_eq (PInt i) v2 = Inr (PInt i = v2)"
  by pat_completeness auto
termination
proof (relation "measure (\<lambda>(v1, v2). size v1)", goal_cases)
  case 1
  show ?case by simp
next
  case (2 d1 v2 d2 k1 k2 k a b)
  then have "(k, a) \<in> set d1" by (simp add: map_of_SomeD)
  then have "size a < Suc (size_list (size_prod (\<lambda>_. 0) size) d1)"
    by (induction d1) auto
  then show ?case by simp
next
  case (3 l1 v2 l2 ab a b)
  then have "a \<in> set l1" by (auto dest: set_zip_leftD)
  then have "size a < Suc (size_list size l1)" by (induction l1) auto
  then show ?case by simp
qed

section \<open>AntigenicDatabase.py\<close>

subsection \<open>Entry\<close>

text \<open>
  An Entry keeps the raw record, its id, its long name, the other fields and the derived
  short name. After construction the long name is a string: \<open>_find_short_name\<close> passes
  it to \<open>CityList.search\<close>, which asserts that.
\<close>

record Entry =
  data_e :: "(string \<times> pyval) list"
  entry_id :: pyval
  long :: string
  properties :: "(string \<times> pyval) list"
  short :: string

text \<open>\<open>np.argmin\<close>: the first index of the least element; ValueError on an empty array.\<close>

definition py_argmin :: "nat list \<Rightarrow> pyerror + nat" where
  "py_argmin xs =
     (case py_min xs of Inl e \<Rightarrow> Inl e | Inr m \<Rightarrow> Inr (length (takeWhile (\<lambda>x. x \<noteq> m) xs)))"

text \<open>
  One round of the loop of \<open>_find_short_name\<close>: the city's name is replaced by its
  code where it occurs; otherwise the \<open>/\<close>-segment closest to the name is.
\<close>

definition short_name_step :: "City \<Rightarrow> string \<Rightarrow> pyerror + string" where
  "short_name_step city short_name =
     (if str_in (name city) short_name
      then Inr (str_replace (name city) (abb city) short_name)
      else (let split_name = split CHR ''/'' short_name;
                edists = map (\<lambda>nm. ed_eval nm (name city)) split_name
            in case py_argmin edists of
                 Inl e \<Rightarrow> Inl e
               | Inr i \<Rightarrow> Inr (butlast (concat (map (\<lambda>x. x @ ''/'') (split_name[i := abb city]))))))"

fun short_name_loop :: "City list \<Rightarrow> string \<Rightarrow> pyerror + string" where
  "short_name_loop [] short_name = Inr short_name"
| "short_name_loop (city # cities) short_name =
     (case short_name_step city short_name of
        Inl e \<Rightarrow> Inl e
      | Inr rewritten \<Rightarrow> short_name_loop cities rewritten)"


definition find_short_name ::
  "re_module \<Rightarrow> (City list \<Rightarrow> City list) \<Rightarrow> City list \<Rightarrow> string \<Rightarrow> pyerror + string" where
  "find_short_name re set_list city_list long_name =
     (case search re city_list long_name True False False of
        Inl e \<Rightarrow> Inl e
      | Inr found \<Rightarrow> short_name_loop (set_list found) long_name)"

definition Entry_init ::
  "re_module \<Rightarrow> (City list \<Rightarrow> City list) \<Rightarrow> City list \<Rightarrow> (string \<times> pyval) list \<Rightarrow> pyerror + Entry" where
  "Entry_init re set_list city_list data =
     (case map_of data ''id'' of
        None \<Rightarrow> Inl AssertionError
      | Some i \<Rightarrow>
          (case map_of data ''long'' of
             Some (PStr l) \<Rightarrow>
               (case find_short_name re set_list city_list l of
                  Inl e \<Rightarrow> Inl e
                | Inr s \<Rightarrow>
                    Inr \<lparr>data_e = data, entry_id = i, long = l,
                         properties = filter (\<lambda>(key, _). key \<noteq> ''id'' \<and> key \<noteq> ''long'') data,
                         short = s\<rparr>)
           | _ \<Rightarrow> Inl AssertionError))"

definition deep_search :: "re_module \<Rightarrow> Entry \<Rightarrow> string \<Rightarrow> bool \<Rightarrow> bool \<Rightarrow> pyerror + bool" where
  "deep_search re entry search_value ignore_case regexp =
     dict_search re (data_e entry) search_value ignore_case regexp"

text \<open>
  \<open>re.findall\<close> of the mutation pattern, a letter, two or three digits, a letter: the
  matches from the left, without overlap, three digits tried before two. The code's
  letters are the twenty amino-acid codes; the class of letters is a parameter so that
  the same scan states the pattern \<open>[A-Z]\d{2,3}[A-Z]\<close>.
\<close>

definition is_digit :: "char \<Rightarrow> bool" where
  "is_digit c = (c \<in> set ''0123456789'')"

definition amino_acid :: "char \<Rightarrow> bool" where
  "amino_acid c = (c \<in> set ''ARNDCEQGHILKMFPSTWYV'')"

definition capital :: "char \<Rightarrow> bool" where
  "capital c = (c \<in> set ''ABCDEFGHIJKLMNOPQRSTUVWXYZ'')"

fun mut_match :: "(char \<Rightarrow> bool) \<Rightarrow> string \<Rightarrow> nat option" where
  "mut_match letter (a # d1 # d2 # x # rest) =
     (if letter a \<and> is_digit d1 \<and> is_digit d2
      then (if is_digit x \<and> (case rest of b # _ \<Rightarrow> letter b | [] \<Rightarrow> False) then Some 5
            else if letter x then Some 4 else None)
      else None)"
| "mut_match letter _ = None"

fun findall_mut :: "(char \<Rightarrow> bool) \<Rightarrow> string \<Rightarrow> string list" where
  "findall_mut letter [] = []"
| "findall_mut letter (x # xs) =
     (case mut_match letter (x # xs) of
        Some n \<Rightarrow> take n (x # xs) # findall_mut letter (drop (n - 1) xs)
      | None \<Rightarrow> findall_mut letter xs)"

definition mutations :: "(char \<Rightarrow> bool) \<Rightarrow> string list \<Rightarrow> string list" where
  "mutations letter parts = flatten_list (map (findall_mut letter) parts)"

text \<open>A name split on \<open>/\<close>, then \<open>_\<close>, then \<open>-\<close>.\<close>

definition name_parts :: "string \<Rightarrow> string list" where
  "name_parts s =
     flatten_list (map (split CHR ''-'') (flatten_list (map (split CHR ''_'') (split CHR ''/'' s))))"

text \<open>
  The refined search, second loop: a part with a directory hit contributes the name of
  its first hit and the loop goes on; a part containing \<open>GYRF\<close> contributes two names
  and ends the loop. The result is the names and \<open>city_found\<close>.
\<close>

fun refine_direct :: "re_module \<Rightarrow> City list \<Rightarrow> string list \<Rightarrow> pyerror + (string list \<times> bool)" where
  "refine_direct re city_list [] = Inr ([], False)"
| "refine_direct re city_list (part # rest) =
     (case search re city_list part False False False of
        Inl e \<Rightarrow> Inl e
      | Inr found_cities \<Rightarrow>
          if length found_cities > 0
          then (case refine_direct re city_list rest of
                  Inl e \<Rightarrow> Inl e
                | Inr (names, _) \<Rightarrow> Inr (name (hd found_cities) # names, True))
          else if str_in ''GYRF'' part then Inr ([''GYRFALCON'', ''WASHINGTON''], True)
          else refine_direct re city_list rest)"

text \<open>
  Third loop: the first part whose edit-distance search is within a quarter of its
  length gives the names. \<open>dist/len(part)\<close> raises on an empty part.
\<close>

fun refine_edit :: "City list \<Rightarrow> string list \<Rightarrow> pyerror + string list" where
  "refine_edit city_list [] = Inr []"
| "refine_edit city_list (part # rest) =
     (case esearch city_list part True of
        Inl e \<Rightarrow> Inl e
      | Inr (found, distance) \<Rightarrow>
          if length part = 0 then Inl ZeroDivisionError
          else if distance / of_nat (length part) \<le> 1 / 4 then Inr (map name found)
          else refine_edit city_list rest)"

definition refined_names :: "re_module \<Rightarrow> City list \<Rightarrow> string \<Rightarrow> pyerror + string list" where
  "refined_names re city_list query =
     (let search_names = split CHR ''/'' query in
      case collect (map (\<lambda>part. search re city_list part False False False) search_names) of
        Inl e \<Rightarrow> Inl e
      | Inr hits \<Rightarrow>
          (case (if list_ex (\<lambda>h. length h > 0) hits then Inr []
                 else (case refine_direct re city_list search_names of
                         Inl e \<Rightarrow> Inl e
                       | Inr (names, city_found) \<Rightarrow>
                           if city_found then Inr names
                           else (case refine_edit city_list search_names of
                                   Inl e \<Rightarrow> Inl e
                                 | Inr edit_names \<Rightarrow> Inr (names @ edit_names)))) of
             Inl e \<Rightarrow> Inl e
           | Inr found_city_names \<Rightarrow> Inr (name_parts query @ found_city_names)))"

text \<open>\<open>str.isalpha\<close> and \<open>str.isnumeric\<close> of a character, on ASCII text.\<close>

definition is_alpha :: "char \<Rightarrow> bool" where
  "is_alpha c = capital (upper_char c)"

definition informative :: "string \<Rightarrow> bool" where
  "informative nm =
     (let n_alpha = length (filter is_alpha nm); n_numeric = length (filter is_digit nm)
      in length nm > 4 \<or> n_numeric > 3 \<or> n_alpha > 3)"

fun count_matches :: "re_module \<Rightarrow> Entry \<Rightarrow> bool \<Rightarrow> bool \<Rightarrow> string list \<Rightarrow> pyerror + int" where
  "count_matches re entry ignore_case regexp [] = Inr 0"
| "count_matches re entry ignore_case regexp (nm # rest) =
     (if informative nm
      then (case deep_search re entry nm ignore_case regexp of
              Inl e \<Rightarrow> Inl e
            | Inr hit \<Rightarrow>
                (case count_matches re entry ignore_case regexp rest of
                   Inl e \<Rightarrow> Inl e
                 | Inr n \<Rightarrow> Inr ((if hit then 1 else 0) + n)))
      else count_matches re entry ignore_case regexp rest)"

definition alias_search ::
  "re_module \<Rightarrow> City list \<Rightarrow> Entry \<Rightarrow> string \<Rightarrow> bool \<Rightarrow> bool \<Rightarrow> bool \<Rightarrow> bool \<Rightarrow> pyerror + int" where
  "alias_search re city_list entry query ignore_case refined ignore_mutations regexp =
     (let search_names = split CHR ''/'' query in
      if \<not> ignore_mutations
         \<and> set (mutations amino_acid search_names)
             \<noteq> set (mutations amino_acid (name_parts (long entry)))
      then Inr 0
      else (case (if refined then refined_names re city_list query else Inr search_names) of
              Inl e \<Rightarrow> Inl e
            | Inr names \<Rightarrow> count_matches re entry ignore_case regexp names))"

subsection \<open>Dataset\<close>

record Dataset =
  data_d :: "(string \<times> pyval) list list"
  entries :: "Entry list"
  ids :: "pyval list"
  longs :: "string list"

datatype diagnostic = More_than_one_data string | No_data string

text \<open>The record that stands for an empty id of the subset.\<close>

definition placeholder :: "(string \<times> pyval) list" where
  "placeholder = [(''id'', PStr ''None''), (''long'', PStr ''None'')]"

text \<open>
  The loop of \<open>Dataset.__init__\<close> over \<open>id_subset\<close>: the rows kept and the warnings
  printed, in order.
\<close>

fun subset_loop :: "(string \<times> pyval) list list \<Rightarrow> string list
    \<Rightarrow> (string \<times> pyval) list list \<times> diagnostic list" where
  "subset_loop data [] = ([], [])"
| "subset_loop data (id1 # rest) =
     (let I = map (\<lambda>x. map_of x ''id'' = Some (PStr id1)) data;
          (kept, warnings) = subset_loop data rest
      in if id1 = [] then (placeholder # kept, warnings)
         else if length (filter id I) \<ge> 1
         then (map fst (filter snd (zip data I)) @ kept,
               (if length (filter id I) > 1 then [More_than_one_data id1] else []) @ warnings)
         else (kept, No_data id1 # warnings))"

definition Dataset_init :: "(string \<times> pyval) list list \<Rightarrow> string list option
    \<Rightarrow> pyerror + (Dataset \<times> diagnostic list)" where
  "Dataset_init data id_subset =
     (if list_ex (\<lambda>x. map_of x ''id'' = None) data then Inl AssertionError
      else (case id_subset of
              None \<Rightarrow> Inr (\<lparr>data_d = data, entries = [], ids = [], longs = []\<rparr>, [])
            | Some requested \<Rightarrow>
                (let (kept, warnings) = subset_loop data requested
                 in Inr (\<lparr>data_d = kept, entries = [], ids = [], longs = []\<rparr>, warnings))))"

text \<open>
  What \<open>SerumDataset\<close> and \<open>AntigenDataset\<close> add to the base constructor: an Entry for
  every kept row, and the lists of ids and long names. The health check that follows,
  which prints diagnostics, is left out.
\<close>

definition load_entries ::
  "re_module \<Rightarrow> (City list \<Rightarrow> City list) \<Rightarrow> City list \<Rightarrow> Dataset \<Rightarrow> pyerror + Dataset" where
  "load_entries re set_list city_list ds =
     (case collect (map (Entry_init re set_list city_list) (data_d ds)) of
        Inl e \<Rightarrow> Inl e
      | Inr es \<Rightarrow> Inr (ds\<lparr>entries := es, ids := map entry_id es, longs := map long es\<rparr>))"

text \<open>
  \<open>get_entry\<close>: every value of the lookup list is the pattern of \<open>re.findall\<close> and
  \<open>search_value\<close> is the string it is searched in; \<open>findall\<close> is non-empty exactly when
  the pattern is found. A value that is not a string is no pattern (TypeError).
\<close>

definition get_entry :: "re_module \<Rightarrow> Dataset \<Rightarrow> string \<Rightarrow> string \<Rightarrow> pyerror + Entry list" where
  "get_entry re ds search_value search_method =
     (if search_method \<noteq> ''id'' \<and> search_method \<noteq> ''long'' then Inl AssertionError
      else (let lookup_list = (if search_method = ''id'' then ids ds else map PStr (longs ds)) in
            case collect (map (\<lambda>value.
                     (case value of
                        PStr pattern \<Rightarrow>
                          (case re False pattern of
                             Inl e \<Rightarrow> Inl e
                           | Inr compiled \<Rightarrow> Inr (compiled search_value))
                      | _ \<Rightarrow> Inl TypeError)) lookup_list) of
              Inl e \<Rightarrow> Inl e
            | Inr hits \<Rightarrow>
                (let I = filter (\<lambda>index. hits ! index) [0 ..< length hits] in
                 if list_ex (\<lambda>x. x \<ge> length (entries ds)) I then Inl IndexError
                 else Inr (map (\<lambda>x. entries ds ! x) I))))"

text \<open>
  \<open>aliased_search\<close>: \<open>_alias_search\<close> on every entry with \<open>refined=False\<close>, the maximum
  of the score array, the second pass with \<open>refined=True\<close> when the maximum is below 2,
  the maximum again, and the entries at the positions of the maximum.
\<close>

definition aliased_search ::
  "re_module \<Rightarrow> City list \<Rightarrow> Dataset \<Rightarrow> string \<Rightarrow> bool \<Rightarrow> bool \<Rightarrow> pyerror + Entry list" where
  "aliased_search re city_list ds search_name ignore_case regexp =
     (case collect (map (\<lambda>entry. alias_search re city_list entry search_name ignore_case
                            False False regexp) (entries ds)) of
        Inl e \<Rightarrow> Inl e
      | Inr I0 \<Rightarrow>
          (case py_max I0 of
             Inl e \<Rightarrow> Inl e
           | Inr max_hits0 \<Rightarrow>
               (case (if max_hits0 < 2
                      then collect (map (\<lambda>entry. alias_search re city_list entry search_name
                                           ignore_case True False regexp) (entries ds))
                      else Inr I0) of
                  Inl e \<Rightarrow> Inl e
                | Inr I \<Rightarrow>
                    (case py_max I of
                       Inl e \<Rightarrow> Inl e
                     | Inr max_hits \<Rightarrow>
                         if max_hits < 2 then Inr []
                         else Inr (map (\<lambda>x. entries ds ! x) (argwhere_eq I max_hits))))))"

section \<open>Notions used to state the properties\<close>

text \<open>
  The distance of a place from a query (over its aliases when aliasing is on) and the
  least distance over a directory, for stating what \<open>esearch\<close> returns.
\<close>

definition place_distance :: "City \<Rightarrow> string \<Rightarrow> bool \<Rightarrow> nat" where
  "place_distance city query aliasing =
     Min (set (map (\<lambda>x. ed_eval x query) (if aliasing then aliases city else [name city])))"

definition directory_distance :: "City list \<Rightarrow> string \<Rightarrow> bool \<Rightarrow> nat" where
  "directory_distance cities query aliasing =
     Min (set (map (\<lambda>city. place_distance city query aliasing) cities))"

text \<open>The entries whose score is the greatest of the scores, in the order of the entries.\<close>

definition best_entries :: "Entry list \<Rightarrow> int list \<Rightarrow> Entry list" where
  "best_entries es scores = map fst (filter (\<lambda>(e, s). s = Max (set scores)) (zip es scores))"

section \<open>Example data\<close>

text \<open>
  Small directories, entries and Datasets on which the properties are evaluated. The
  entries and Datasets are those the constructors build from their raw records.
\<close>

definition texas_perth :: "City list" where
  "texas_perth = CityList_init [(''TE'', ''TEXAS''), (''PE'', ''PERTH'')]"

definition entry_texas :: Entry where
  "entry_texas = \<lparr>data_e = [(''id'', PStr ''AG1''), (''long'', PStr ''A/TEXAS/1234/1991'')],
     entry_id = PStr ''AG1'', long = ''A/TEXAS/1234/1991'', properties = [],
     short = ''A/TE/1234/1991''\<rparr>"

definition entry_perth :: Entry where
  "entry_perth = \<lparr>data_e = [(''id'', PStr ''AG2''), (''long'', PStr ''A/PERTH/1234/2009'')],
     entry_id = PStr ''AG2'', long = ''A/PERTH/1234/2009'', properties = [],
     short = ''A/PE/1234/2009''\<rparr>"

definition two_antigens :: Dataset where
  "two_antigens = \<lparr>data_d = [data_e entry_texas, data_e entry_perth],
     entries = [entry_texas, entry_perth], ids = [PStr ''AG1'', PStr ''AG2''],
     longs = [''A/TEXAS/1234/1991'', ''A/PERTH/1234/2009'']\<rparr>"


definition entry_A1 :: Entry where
  "entry_A1 = \<lparr>data_e = [(''id'', PStr ''A1''), (''long'', PStr ''A/TEXAS/1/77'')],
     entry_id = PStr ''A1'', long = ''A/TEXAS/1/77'', properties = [], short = ''A/TE/1/77''\<rparr>"

definition entry_A12 :: Entry where
  "entry_A12 = \<lparr>data_e = [(''id'', PStr ''A12''), (''long'', PStr ''A/PERTH/2/09'')],
     entry_id = PStr ''A12'', long = ''A/PERTH/2/09'', properties = [], short = ''A/PE/2/09''\<rparr>"

definition dataset_A1_A12 :: Dataset where
  "dataset_A1_A12 = \<lparr>data_d = [data_e entry_A1, data_e entry_A12],
     entries = [entry_A1, entry_A12], ids = [PStr ''A1'', PStr ''A12''],
     longs = [''A/TEXAS/1/77'', ''A/PERTH/2/09'']\<rparr>"

section \<open>Properties\<close>

lemma collect_map_Inr: "collect (map (\<lambda>x. Inr (f x)) xs) = Inr (map f xs)"
  by (induction xs) simp_all

lemma py_min_Min: "xs \<noteq> [] \<Longrightarrow> py_min xs = Inr (Min (set xs))"
proof (cases xs)
  case Nil
  assume "xs \<noteq> []"
  with Nil show ?thesis by simp
next
  case (Cons y ys)
  show ?thesis unfolding Cons py_min_def using Min.set_eq_fold [of y ys] by simp
qed

lemma py_max_Max: "xs \<noteq> [] \<Longrightarrow> py_max xs = Inr (Max (set xs))"
proof (cases xs)
  case Nil
  assume "xs \<noteq> []"
  with Nil show ?thesis by simp
next
  case (Cons y ys)
  show ?thesis unfolding Cons py_max_def using Max.set_eq_fold [of y ys] by simp
qed

lemma nth_filter_upt:
  "map (\<lambda>i. xs ! i) (filter (\<lambda>i. P (xs ! i)) [0 ..< length xs]) = filter P xs"
proof (induction xs rule: rev_induct)
  case Nil
  show ?case by simp
next
  case (snoc x xs)
  have "filter (\<lambda>i. P ((xs @ [x]) ! i)) [0 ..< length xs] = filter (\<lambda>i. P (xs ! i)) [0 ..< length xs]"
    by (rule filter_cong) (simp_all add: nth_append)
  moreover have "map (\<lambda>i. (xs @ [x]) ! i) (filter (\<lambda>i. P (xs ! i)) [0 ..< length xs])
      = map (\<lambda>i. xs ! i) (filter (\<lambda>i. P (xs ! i)) [0 ..< length xs])"
    by (rule map_cong) (simp_all add: nth_append)
  ultimately show ?case using snoc by (simp add: nth_append)
qed

lemma argwhere_eq_map:
  "map (\<lambda>i. xs ! i) (argwhere_eq (map f xs) v) = filter (\<lambda>x. f x = v) xs"
proof -
  have "argwhere_eq (map f xs) v = filter (\<lambda>i. f (xs ! i) = v) [0 ..< length xs]"
    unfolding argwhere_eq_def length_map by (rule filter_cong) simp_all
  then show ?thesis using nth_filter_upt [of xs "\<lambda>x. f x = v"] by simp
qed

lemma aliases_City_init: "aliases (City_init nm ab) \<noteq> []"
  by (simp add: City_init_def generate_city_aliases_def Let_def)

lemma ematch_CityList:
  "city \<in> set (CityList_init city_map) \<Longrightarrow> ematch city query aliasing = Inr (place_distance city query aliasing)"
  by (auto simp: CityList_init_def ematch_def place_distance_def Let_def py_min_Min aliases_City_init)

lemma collect_ematch:
  "collect (map (\<lambda>city. ematch city query aliasing) (CityList_init city_map))
     = Inr (map (\<lambda>city. place_distance city query aliasing) (CityList_init city_map))"
proof -
  have h: "map (\<lambda>city. ematch city query aliasing) (CityList_init city_map)
      = map (\<lambda>city. Inr (place_distance city query aliasing)) (CityList_init city_map)"
    by (rule map_cong) (simp_all add: ematch_CityList)
  show ?thesis unfolding h by (rule collect_map_Inr)
qed

subsection \<open>Directory edit-distance search\<close>

text \<open>
  C8. On a directory built from a non-empty code table, \<open>esearch\<close> computes the least
  edit distance \<open>m\<close> over all places (over their aliases when aliasing is on). When
  \<open>m < len(query)/2\<close> it returns the places at distance \<open>m\<close>, in directory order,
  with \<open>m\<close>; otherwise it returns the empty list with \<open>len(query)/2\<close>. So a non-empty
  result never comes with a distance of half the query length or more.
\<close>

theorem esearch_threshold:
  assumes "city_map \<noteq> []"
  shows "esearch (CityList_init city_map) query aliasing =
           (if 2 * directory_distance (CityList_init city_map) query aliasing < length query
            then Inr (filter (\<lambda>city. place_distance city query aliasing
                                = directory_distance (CityList_init city_map) query aliasing)
                        (CityList_init city_map),
                      of_nat (directory_distance (CityList_init city_map) query aliasing))
            else Inr ([], of_nat (length query) / 2))
         \<and> (\<forall>found d. esearch (CityList_init city_map) query aliasing = Inr (found, d) \<and> found \<noteq> []
                \<longrightarrow> d < of_nat (length query) / 2)"
proof -
  define cities where "cities = CityList_init city_map"
  define m where "m = directory_distance cities query aliasing"
  have ne: "map (\<lambda>city. place_distance city query aliasing) cities \<noteq> []"
    using assms by (simp add: cities_def CityList_init_def)
  have lt: "((of_nat m :: rat) < of_nat (length query) / 2) = (2 * m < length query)"
  proof -
    have "((of_nat m :: rat) < of_nat (length query) / 2)
        = ((of_nat (2 * m) :: rat) < of_nat (length query))"
      by (simp add: field_simps)
    also have "\<dots> = (2 * m < length query)" by (rule of_nat_less_iff)
    finally show ?thesis .
  qed
  have eq: "esearch cities query aliasing =
           (if 2 * m < length query
            then Inr (filter (\<lambda>city. place_distance city query aliasing = m) cities, of_nat m)
            else Inr ([], of_nat (length query) / 2))"
    unfolding esearch_def cities_def collect_ematch
    using ne lt
    by (simp add: py_min_Min argwhere_eq_map cities_def m_def directory_distance_def)
  have "\<forall>found d. esearch cities query aliasing = Inr (found, d) \<and> found \<noteq> []
                \<longrightarrow> d < of_nat (length query) / 2"
    unfolding eq using lt by (auto split: if_splits)
  with eq show ?thesis unfolding m_def cities_def by blast
qed


theorem esearch_threshold_witness:
  "[(''HK'', ''HONGKONG''), (''RO'', ''ROMA'')] \<noteq> []
   \<and> esearch (CityList_init [(''HK'', ''HONGKONG''), (''RO'', ''ROMA'')]) ''ROMY'' True
       = Inr ([City_init ''ROMA'' ''RO''], 1)"
proof -
  have ne: "[(''HK'', ''HONGKONG''), (''RO'', ''ROMA'')] \<noteq> []" by simp
  have al: "aliases (City_init ''HONGKONG'' ''HK'') = [''HONGKONG'']"
           "aliases (City_init ''ROMA'' ''RO'') = [''ROMA'']"
    by (simp_all add: City_init_def generate_city_aliases_def replace_chars_def upper_def
        upper_char_def upt_rec)
  have d1: "place_distance (City_init ''HONGKONG'' ''HK'') ''ROMY'' True = 7"
    unfolding place_distance_def al by simp
  have d2: "place_distance (City_init ''ROMA'' ''RO'') ''ROMY'' True = 1"
    unfolding place_distance_def al by simp
  have dd: "directory_distance (CityList_init [(''HK'', ''HONGKONG''), (''RO'', ''ROMA'')])
      ''ROMY'' True = 1"
    by (simp add: directory_distance_def CityList_init_def d1 d2)
  show ?thesis
    using esearch_threshold [OF ne, of "''ROMY''" True] ne
    unfolding dd by (simp add: CityList_init_def d1 d2)
qed

subsection \<open>Alias generation\<close>

text \<open>
  C3. The claim asks for a variant for every ordered pair of distinct separators, so that
  a name with \<open>_\<close> also yields the variant with \<open>-\<close> in its place, as the module's
  documentation says of \<open>HONG_KONG\<close>. The inner loop only runs over the separators that
  come after the first one in \<open>['-', '_', ' ', '/']\<close>: \<open>HONG_KONG\<close> yields the
  variants with a space, with a slash and with the separator removed, and not
  \<open>HONG-KONG\<close>.
\<close>

theorem generate_city_aliases_HONG_KONG:
  "generate_city_aliases ''HONG_KONG'' = [''HONG_KONG'', ''HONG KONG'', ''HONG/KONG'', ''HONGKONG'']
   \<and> ''HONG-KONG'' \<notin> set (generate_city_aliases ''HONG_KONG'')"
  by (simp add: generate_city_aliases_def replace_chars_def upper_def upper_char_def
      str_replace_def upt_rec)

subsection \<open>Matching a single place\<close>

text \<open>
  C4, as stated, fails: without aliasing the query is still compiled as a
  case-insensitive regular expression and searched in the canonical name, so the query
  \<open>HONGK\<close> matches the place \<open>HONGKONG\<close>, as the repository's test of \<open>search\<close>
  expects.
\<close>

theorem match_without_aliasing_counterexample:
  "match re_literal (City_init ''HONGKONG'' ''HK'') ''HONGK'' False False = Inr True
   \<and> ''HONGK'' \<noteq> name (City_init ''HONGKONG'' ''HK'')"
  by (simp add: match_def re_literal_def re_metachars_def City_init_def upper_def upper_char_def)

text \<open>
  C4, amended. With aliasing off, \<open>match\<close> expands no alias on either side: it
  compiles the query alone (between \<open>^\<close> and \<open>$\<close> under \<open>exact_match\<close>) as a
  case-insensitive regular expression, raises what compiling raises, and otherwise
  returns whether that expression is found in the canonical name.
\<close>

theorem match_without_aliasing:
  "match re city query False exact_match =
     (case re True (if exact_match then ''^'' @ query @ ''$'' else query) of
        Inl e \<Rightarrow> Inl e
      | Inr compiled \<Rightarrow> Inr (compiled (name city)))"
  by (simp add: match_def split: sum.splits)

theorem match_without_aliasing_witness:
  "match re_literal (City_init ''HONGKONG'' ''HK'') ''hongk'' False False = Inr True
   \<and> match re_literal (City_init ''HONG-KONG'' ''HP'') ''HONGKONG'' False False = Inr False"
  using match_without_aliasing [of re_literal "City_init ''HONGKONG'' ''HK''" "''hongk''" False]
    match_without_aliasing [of re_literal "City_init ''HONG-KONG'' ''HP''" "''HONGKONG''" False]
  by (simp add: re_literal_def re_metachars_def City_init_def upper_def upper_char_def)

lemma collect_length: "collect rs = Inr vs \<Longrightarrow> length vs = length rs"
  by (induction rs arbitrary: vs) (auto split: sum.splits)

lemma collect_results: "collect rs = Inr vs \<Longrightarrow> rs = map Inr vs"
  by (induction rs arbitrary: vs) (auto split: sum.splits)

lemma collect_raises:
  "x \<in> set xs \<Longrightarrow> f x = Inl e \<Longrightarrow> \<exists>e'. collect (map f xs) = Inl e'"
  by (induction xs) (auto split: sum.splits)

lemma argwhere_eq_zip:
  assumes "length es = length I"
  shows "map (\<lambda>x. es ! x) (argwhere_eq I m) = map fst (filter (\<lambda>(e, s). s = m) (zip es I))"
proof -
  let ?zs = "zip es I"
  let ?P = "\<lambda>(e, s). s = m"
  have len: "length ?zs = length I" using assms by simp
  have idx: "argwhere_eq I m = filter (\<lambda>i. ?P (?zs ! i)) [0 ..< length ?zs]"
    unfolding argwhere_eq_def len by (rule filter_cong) (simp_all add: assms)
  have "map (\<lambda>x. es ! x) (filter (\<lambda>i. ?P (?zs ! i)) [0 ..< length ?zs])
      = map (\<lambda>x. fst (?zs ! x)) (filter (\<lambda>i. ?P (?zs ! i)) [0 ..< length ?zs])"
    by (rule map_cong) (simp_all add: assms)
  also have "\<dots> = map fst (map (\<lambda>i. ?zs ! i) (filter (\<lambda>i. ?P (?zs ! i)) [0 ..< length ?zs]))"
    by (simp add: comp_def)
  also have "\<dots> = map fst (filter ?P ?zs)"
    by (simp only: nth_filter_upt)
  finally show ?thesis unfolding idx .
qed

lemma best_entries_argwhere:
  assumes "length I = length es"
  shows "map (\<lambda>x. es ! x) (argwhere_eq I (Max (set I))) = best_entries es I"
  using argwhere_eq_zip [of es I "Max (set I)"] assms by (simp add: best_entries_def)

text \<open>
  Selecting by position in the score array is selecting the entries by their own score,
  since the array holds the score of every entry.
\<close>

lemma filter_zip_scores:
  assumes "map f es = map Inr scores"
  shows "map fst (filter (\<lambda>(e, s). s = m) (zip es scores)) = filter (\<lambda>e. f e = Inr m) es"
  using assms
proof (induction es arbitrary: scores)
  case Nil
  then show ?case by simp
next
  case (Cons e es)
  then obtain s rest where scores: "scores = s # rest" by (cases scores) auto
  with Cons.prems have "f e = Inr s" and "map f es = map Inr rest" by simp_all
  then show ?case using Cons.IH [of rest] scores by auto
qed

lemma best_entries_by_score:
  assumes "collect (map f es) = Inr scores"
  shows "best_entries es scores = filter (\<lambda>e. f e = Inr (Max (set scores))) es"
  unfolding best_entries_def using collect_results [OF assms] by (rule filter_zip_scores)

lemma scores_bounded:
  assumes "collect (map f es) = Inr scores" and "entry \<in> set es"
  shows "\<exists>s. f entry = Inr s \<and> s \<le> Max (set scores)"
proof -
  have eq: "map f es = map Inr scores" using assms(1) by (rule collect_results)
  obtain i where i: "i < length es" "es ! i = entry"
    using assms(2) by (auto simp: in_set_conv_nth)
  have len: "length scores = length es" using eq by (metis length_map)
  have "f entry = Inr (scores ! i)"
    using i len arg_cong [OF eq, of "\<lambda>xs. xs ! i"] by simp
  moreover have "scores ! i \<le> Max (set scores)"
    using i len by (intro Max_ge) simp_all
  ultimately show ?thesis by blast
qed

lemma collect_scores:
  assumes "\<forall>entry \<in> set es. f entry = Inr (p entry)"
  shows "collect (map f es) = Inr (map p es)"
proof -
  have "map f es = map (\<lambda>entry. Inr (p entry)) es"
    using assms by (intro map_cong) simp_all
  then show ?thesis by (simp only: collect_map_Inr)
qed

lemma best_entries_map:
  assumes "\<forall>entry \<in> set es. f entry = Inr (p entry)"
  shows "best_entries es (map p es) = filter (\<lambda>entry. p entry = Max (p ` set es)) es"
proof -
  have "best_entries es (map p es) = filter (\<lambda>entry. f entry = Inr (Max (set (map p es)))) es"
    using collect_scores [OF assms] by (rule best_entries_by_score)
  also have "\<dots> = filter (\<lambda>entry. p entry = Max (set (map p es))) es"
    using assms by (intro filter_cong) simp_all
  finally show ?thesis by (simp only: set_map)
qed

lemma selection:
  assumes "py_max I = Inr m" and "map (\<lambda>x. es ! x) (argwhere_eq I m) = best"
  shows "(case py_max I of
            Inl e \<Rightarrow> Inl e
          | Inr max_hits \<Rightarrow>
              if max_hits < 2 then Inr []
              else Inr (map (\<lambda>x. es ! x) (argwhere_eq I max_hits)))
         = (if m < 2 then Inr [] else Inr best)"
  using assms by simp

subsection \<open>Dataset-wide fuzzy resolution\<close>

text \<open>
  C1, as stated, fails: \<open>aliased_search\<close> does not return for every query string. A
  fragment that passes the noise filter is compiled as a regular expression, and
  \<open>TEXAS(\<close>, with its unmatched parenthesis, is none: on the query \<open>A/TEXAS(/1991\<close> the
  first scoring call raises and so does \<open>aliased_search\<close>.
\<close>

theorem aliased_search_raises_counterexample:
  "entries two_antigens \<noteq> []
   \<and> alias_search re_literal texas_perth entry_texas ''A/TEXAS(/1991'' True False False True
       = Inl ReError
   \<and> aliased_search re_literal texas_perth two_antigens ''A/TEXAS(/1991'' True True
       = Inl ReError"
  by code_simp

text \<open>
  C1, amended. On a Dataset with at least one entry, \<open>aliased_search\<close> first calls
  \<open>_alias_search\<close> with \<open>refined=False\<close> on every entry, in order. If the best of these
  scores is 2 or more, it returns the entries with that score, in Dataset order, and no
  refined score is computed. Only otherwise does it call \<open>_alias_search\<close> with
  \<open>refined=True\<close> on every entry; if the best refined score is still below 2 it returns
  the empty list, and otherwise the entries whose refined score is the best one, in
  Dataset order. When a scoring call raises, \<open>aliased_search\<close> raises instead of
  returning. Hence a non-empty result is, for one of the two modes, exactly the entries
  whose own score in that mode is the greatest score, which is at least 2; an entry with
  a score below 2 is never returned.
\<close>

theorem aliased_search_two_passes:
  assumes "entries ds \<noteq> []"
  shows "aliased_search re city_list ds search_name ignore_case regexp =
           (case collect (map (\<lambda>entry. alias_search re city_list entry search_name
                                  ignore_case False False regexp) (entries ds)) of
              Inl e \<Rightarrow> Inl e
            | Inr plain \<Rightarrow>
                if 2 \<le> Max (set plain) then Inr (best_entries (entries ds) plain)
                else (case collect (map (\<lambda>entry. alias_search re city_list entry search_name
                                            ignore_case True False regexp) (entries ds)) of
                        Inl e \<Rightarrow> Inl e
                      | Inr refined \<Rightarrow>
                          if Max (set refined) < 2 then Inr []
                          else Inr (best_entries (entries ds) refined)))
         \<and> (\<forall>found. aliased_search re city_list ds search_name ignore_case regexp = Inr found
                \<and> found \<noteq> []
              \<longrightarrow> (\<exists>refined m.
                     2 \<le> m
                     \<and> (\<forall>entry \<in> set (entries ds).
                           \<exists>s. alias_search re city_list entry search_name ignore_case refined
                                 False regexp = Inr s \<and> s \<le> m)
                     \<and> found = filter (\<lambda>entry. alias_search re city_list entry search_name
                                          ignore_case refined False regexp = Inr m)
                                 (entries ds)))
         \<and> (\<forall>entry e. entry \<in> set (entries ds)
                \<and> alias_search re city_list entry search_name ignore_case False False regexp
                    = Inl e
              \<longrightarrow> (\<exists>e'. aliased_search re city_list ds search_name ignore_case regexp = Inl e'))
         \<and> (\<forall>p. (\<forall>entry \<in> set (entries ds).
                    alias_search re city_list entry search_name ignore_case False False regexp
                      = Inr (p entry))
              \<longrightarrow> (2 \<le> Max (p ` set (entries ds))
                     \<longrightarrow> aliased_search re city_list ds search_name ignore_case regexp
                           = Inr (filter (\<lambda>entry. p entry = Max (p ` set (entries ds)))
                                    (entries ds)))
                  \<and> (Max (p ` set (entries ds)) < 2
                     \<longrightarrow> (\<forall>r. (\<forall>entry \<in> set (entries ds).
                                  alias_search re city_list entry search_name ignore_case True
                                    False regexp = Inr (r entry))
                              \<longrightarrow> aliased_search re city_list ds search_name ignore_case regexp
                                    = (if Max (r ` set (entries ds)) < 2 then Inr []
                                       else Inr (filter (\<lambda>entry. r entry
                                                           = Max (r ` set (entries ds)))
                                                   (entries ds))))
                         \<and> (\<forall>entry e. entry \<in> set (entries ds)
                                \<and> alias_search re city_list entry search_name ignore_case True
                                     False regexp = Inl e
                              \<longrightarrow> (\<exists>e'. aliased_search re city_list ds search_name ignore_case
                                          regexp = Inl e'))))"
proof -
  let ?score = "\<lambda>refined entry. alias_search re city_list entry search_name ignore_case
                  refined False regexp"
  let ?plain = "collect (map (?score False) (entries ds))"
  let ?refined = "collect (map (?score True) (entries ds))"
  have eq: "aliased_search re city_list ds search_name ignore_case regexp =
           (case ?plain of
              Inl e \<Rightarrow> Inl e
            | Inr plain \<Rightarrow>
                if 2 \<le> Max (set plain) then Inr (best_entries (entries ds) plain)
                else (case ?refined of
                        Inl e \<Rightarrow> Inl e
                      | Inr refined \<Rightarrow>
                          if Max (set refined) < 2 then Inr []
                          else Inr (best_entries (entries ds) refined)))"
  proof (cases ?plain)
    case (Inl e)
    then show ?thesis by (simp add: aliased_search_def)
  next
    case (Inr plain)
    define m0 where "m0 = Max (set plain)"
    have lp: "length plain = length (entries ds)" using collect_length [OF Inr] by simp
    then have "plain \<noteq> []" using assms by auto
    then have pm0: "py_max plain = Inr m0" unfolding m0_def by (rule py_max_Max)
    have b0: "map (\<lambda>x. entries ds ! x) (argwhere_eq plain m0) = best_entries (entries ds) plain"
      unfolding m0_def using lp by (rule best_entries_argwhere)
    show ?thesis
    proof (cases "2 \<le> m0")
      case True
      then have "aliased_search re city_list ds search_name ignore_case regexp
          = Inr (best_entries (entries ds) plain)"
        unfolding aliased_search_def Inr using pm0 b0 by simp
      then show ?thesis using True Inr unfolding m0_def by simp
    next
      case False
      show ?thesis
      proof (cases ?refined)
        case (Inl e)
        then have "aliased_search re city_list ds search_name ignore_case regexp = Inl e"
          unfolding aliased_search_def Inr using pm0 False by simp
        then show ?thesis using False Inr Inl unfolding m0_def by simp
      next
        case refined: (Inr refined)
        define m where "m = Max (set refined)"
        have lr: "length refined = length (entries ds)"
          using collect_length [OF refined] by simp
        then have "refined \<noteq> []" using assms by auto
        then have pm: "py_max refined = Inr m" unfolding m_def by (rule py_max_Max)
        have b: "map (\<lambda>x. entries ds ! x) (argwhere_eq refined m)
            = best_entries (entries ds) refined"
          unfolding m_def using lr by (rule best_entries_argwhere)
        have "aliased_search re city_list ds search_name ignore_case regexp
            = (if m < 2 then Inr [] else Inr (best_entries (entries ds) refined))"
          unfolding aliased_search_def Inr using pm0 False refined selection [OF pm b] by simp
        then show ?thesis using False Inr refined unfolding m0_def m_def by simp
      qed
    qed
  qed
  have by_score: "\<exists>refined m. 2 \<le> m
        \<and> (\<forall>entry \<in> set (entries ds). \<exists>s. ?score refined entry = Inr s \<and> s \<le> m)
        \<and> best_entries (entries ds) scores = filter (\<lambda>entry. ?score refined entry = Inr m) (entries ds)"
    if scores: "collect (map (?score mode) (entries ds)) = Inr scores"
      and big: "2 \<le> Max (set scores)" for mode scores
  proof -
    have bounded: "\<forall>entry \<in> set (entries ds).
        \<exists>s. ?score mode entry = Inr s \<and> s \<le> Max (set scores)"
    proof
      fix entry assume "entry \<in> set (entries ds)"
      then show "\<exists>s. ?score mode entry = Inr s \<and> s \<le> Max (set scores)"
        by (rule scores_bounded [where f = "?score mode", OF scores])
    qed
    have selected: "best_entries (entries ds) scores
        = filter (\<lambda>entry. ?score mode entry = Inr (Max (set scores))) (entries ds)"
      by (rule best_entries_by_score [where f = "?score mode", OF scores])
    show ?thesis
      by (rule exI [of _ mode], rule exI [of _ "Max (set scores)"]) (intro conjI big bounded selected)
  qed
  have nonempty: "\<forall>found. aliased_search re city_list ds search_name ignore_case regexp = Inr found
                \<and> found \<noteq> []
              \<longrightarrow> (\<exists>refined m. 2 \<le> m
                     \<and> (\<forall>entry \<in> set (entries ds). \<exists>s. ?score refined entry = Inr s \<and> s \<le> m)
                     \<and> found = filter (\<lambda>entry. ?score refined entry = Inr m) (entries ds))"
  proof (intro allI impI, elim conjE)
    fix found
    assume res: "aliased_search re city_list ds search_name ignore_case regexp = Inr found"
      and ne: "found \<noteq> []"
    show "\<exists>refined m. 2 \<le> m
            \<and> (\<forall>entry \<in> set (entries ds). \<exists>s. ?score refined entry = Inr s \<and> s \<le> m)
            \<and> found = filter (\<lambda>entry. ?score refined entry = Inr m) (entries ds)"
    proof (cases ?plain)
      case (Inl e)
      then show ?thesis using res unfolding eq by simp
    next
      case (Inr plain)
      show ?thesis
      proof (cases "2 \<le> Max (set plain)")
        case True
        then have f: "found = best_entries (entries ds) plain" using res Inr unfolding eq by simp
        show ?thesis unfolding f by (rule by_score [OF Inr True])
      next
        case False
        show ?thesis
        proof (cases ?refined)
          case (Inl e)
          then show ?thesis using res Inr False unfolding eq by simp
        next
          case refined: (Inr refined)
          show ?thesis
          proof (cases "Max (set refined) < 2")
            case True
            then show ?thesis using res Inr False refined ne unfolding eq by simp
          next
            case big: False
            then have f: "found = best_entries (entries ds) refined"
              using res Inr False refined unfolding eq by simp
            have "2 \<le> Max (set refined)" using big by simp
            then show ?thesis unfolding f by (rule by_score [OF refined])
          qed
        qed
      qed
    qed
  qed
  have raises: "\<forall>entry e. entry \<in> set (entries ds) \<and> ?score False entry = Inl e
              \<longrightarrow> (\<exists>e'. aliased_search re city_list ds search_name ignore_case regexp = Inl e')"
  proof (intro allI impI, elim conjE)
    fix entry e
    assume member: "entry \<in> set (entries ds)" and raised: "?score False entry = Inl e"
    obtain e' where "?plain = Inl e'"
      using collect_raises [where f = "?score False", OF member raised] by (rule exE)
    then have "aliased_search re city_list ds search_name ignore_case regexp = Inl e'"
      unfolding eq by simp
    then show "\<exists>e'. aliased_search re city_list ds search_name ignore_case regexp = Inl e'" ..
  qed
  have returns: "\<forall>p. (\<forall>entry \<in> set (entries ds). ?score False entry = Inr (p entry))
              \<longrightarrow> (2 \<le> Max (p ` set (entries ds))
                     \<longrightarrow> aliased_search re city_list ds search_name ignore_case regexp
                           = Inr (filter (\<lambda>entry. p entry = Max (p ` set (entries ds)))
                                    (entries ds)))
                  \<and> (Max (p ` set (entries ds)) < 2
                     \<longrightarrow> (\<forall>r. (\<forall>entry \<in> set (entries ds). ?score True entry = Inr (r entry))
                              \<longrightarrow> aliased_search re city_list ds search_name ignore_case regexp
                                    = (if Max (r ` set (entries ds)) < 2 then Inr []
                                       else Inr (filter (\<lambda>entry. r entry
                                                           = Max (r ` set (entries ds)))
                                                   (entries ds))))
                         \<and> (\<forall>entry e. entry \<in> set (entries ds) \<and> ?score True entry = Inl e
                              \<longrightarrow> (\<exists>e'. aliased_search re city_list ds search_name ignore_case
                                          regexp = Inl e')))"
  proof (intro allI impI)
    fix p
    assume plain: "\<forall>entry \<in> set (entries ds). ?score False entry = Inr (p entry)"
    define M where "M = Max (p ` set (entries ds))"
    have cp: "?plain = Inr (map p (entries ds))"
      by (rule collect_scores [where f = "?score False", OF plain])
    have mp: "Max (set (map p (entries ds))) = M" unfolding M_def by (simp only: set_map)
    have bp: "best_entries (entries ds) (map p (entries ds))
        = filter (\<lambda>entry. p entry = M) (entries ds)"
      unfolding M_def by (rule best_entries_map [where f = "?score False", OF plain])
    have first: "aliased_search re city_list ds search_name ignore_case regexp =
        (if 2 \<le> M then Inr (filter (\<lambda>entry. p entry = M) (entries ds))
         else (case ?refined of
                 Inl e \<Rightarrow> Inl e
               | Inr refined \<Rightarrow>
                   if Max (set refined) < 2 then Inr []
                   else Inr (best_entries (entries ds) refined)))"
      unfolding eq cp sum.case mp bp by (rule refl)
    have big: "aliased_search re city_list ds search_name ignore_case regexp
        = Inr (filter (\<lambda>entry. p entry = M) (entries ds))" if "2 \<le> M"
      unfolding first using that by (simp only: if_True)
    have small: "aliased_search re city_list ds search_name ignore_case regexp
        = (if R < 2 then Inr [] else Inr (filter (\<lambda>entry. r entry = R) (entries ds)))"
      if less: "M < 2"
        and refined: "\<forall>entry \<in> set (entries ds). ?score True entry = Inr (r entry)"
        and R: "R = Max (r ` set (entries ds))" for r R
    proof -
      have no: "\<not> 2 \<le> M" using less by simp
      have cr: "?refined = Inr (map r (entries ds))"
        by (rule collect_scores [where f = "?score True", OF refined])
      have mr: "Max (set (map r (entries ds))) = R" unfolding R by (simp only: set_map)
      have br: "best_entries (entries ds) (map r (entries ds))
          = filter (\<lambda>entry. r entry = R) (entries ds)"
        unfolding R by (rule best_entries_map [where f = "?score True", OF refined])
      show ?thesis unfolding first cr sum.case mr br using no by (simp only: if_False)
    qed
    have refined_raises: "\<exists>e'. aliased_search re city_list ds search_name ignore_case regexp = Inl e'"
      if less: "M < 2" and member: "entry \<in> set (entries ds)"
        and raised: "?score True entry = Inl e" for entry e
    proof -
      have no: "\<not> 2 \<le> M" using less by simp
      obtain e' where e': "?refined = Inl e'"
        using collect_raises [where f = "?score True", OF member raised] by (rule exE)
      have "aliased_search re city_list ds search_name ignore_case regexp = Inl e'"
        unfolding first e' sum.case using no by (simp only: if_False)
      then show ?thesis ..
    qed
    show "(2 \<le> Max (p ` set (entries ds))
             \<longrightarrow> aliased_search re city_list ds search_name ignore_case regexp
                   = Inr (filter (\<lambda>entry. p entry = Max (p ` set (entries ds))) (entries ds)))
          \<and> (Max (p ` set (entries ds)) < 2
             \<longrightarrow> (\<forall>r. (\<forall>entry \<in> set (entries ds). ?score True entry = Inr (r entry))
                      \<longrightarrow> aliased_search re city_list ds search_name ignore_case regexp
                            = (if Max (r ` set (entries ds)) < 2 then Inr []
                               else Inr (filter (\<lambda>entry. r entry = Max (r ` set (entries ds)))
                                           (entries ds))))
                 \<and> (\<forall>entry e. entry \<in> set (entries ds) \<and> ?score True entry = Inl e
                      \<longrightarrow> (\<exists>e'. aliased_search re city_list ds search_name ignore_case
                                  regexp = Inl e')))"
    proof (intro conjI impI allI)
      assume "2 \<le> Max (p ` set (entries ds))"
      then show "aliased_search re city_list ds search_name ignore_case regexp
          = Inr (filter (\<lambda>entry. p entry = Max (p ` set (entries ds))) (entries ds))"
        using big unfolding M_def by simp
    next
      fix r
      assume "Max (p ` set (entries ds)) < 2"
        and "\<forall>entry \<in> set (entries ds). ?score True entry = Inr (r entry)"
      then show "aliased_search re city_list ds search_name ignore_case regexp
          = (if Max (r ` set (entries ds)) < 2 then Inr []
             else Inr (filter (\<lambda>entry. r entry = Max (r ` set (entries ds))) (entries ds)))"
        using small [of r "Max (r ` set (entries ds))"] unfolding M_def by (simp only:)
    next
      fix entry e
      assume "Max (p ` set (entries ds)) < 2"
        and "entry \<in> set (entries ds) \<and> ?score True entry = Inl e"
      then show "\<exists>e'. aliased_search re city_list ds search_name ignore_case regexp = Inl e'"
        using refined_raises [of entry e] unfolding M_def by (simp only:)
    qed
  qed
  show ?thesis by (intro conjI) (rule eq, rule nonempty, rule raises, rule returns)
qed

text \<open>
  C9. On a Dataset with no entries \<open>aliased_search\<close> does not return the empty list:
  the maximum of the empty score array is taken first, and raises ValueError.
\<close>

theorem aliased_search_no_entries:
  assumes "entries ds = []"
  shows "aliased_search re city_list ds search_name ignore_case regexp = Inl ValueError"
  using assms by (simp add: aliased_search_def py_max_def)

lemma two_antigens_loaded:
  "(case Dataset_init [data_e entry_texas, data_e entry_perth] None of
      Inl e \<Rightarrow> Inl e
    | Inr (ds, warnings) \<Rightarrow> load_entries re_literal remdups texas_perth ds) = Inr two_antigens"
  by code_simp

text \<open>
  The query \<open>TEXAZ/1991\<close> on the two example antigens: the plain scores are 1 and 0; the
  refined pass recovers TEXAS by edit distance and scores 2 and 0.
\<close>

lemma TEXAZ_plain_scores:
  "collect (map (\<lambda>entry. alias_search re_literal texas_perth entry ''TEXAZ/1991'' True False
                   False True) (entries two_antigens)) = Inr [1, 0]"
  by code_simp

lemma TEXAZ_refined_scores:
  "collect (map (\<lambda>entry. alias_search re_literal texas_perth entry ''TEXAZ/1991'' True True
                   False True) (entries two_antigens)) = Inr [2, 0]"
  by code_simp

theorem aliased_search_two_passes_witness:
  "entries two_antigens \<noteq> []
   \<and> aliased_search re_literal texas_perth two_antigens ''TEXAZ/1991'' True True
       = Inr [entry_texas]
   \<and> alias_search re_literal texas_perth entry_texas ''TEXAZ/1991'' True False False True = Inr 1
   \<and> alias_search re_literal texas_perth entry_texas ''TEXAZ/1991'' True True False True = Inr 2"
proof -
  have ne: "entries two_antigens \<noteq> []" by (simp add: two_antigens_def)
  have best: "best_entries (entries two_antigens) [2, 0] = [entry_texas]"
    by (simp add: best_entries_def two_antigens_def)
  have plain: "alias_search re_literal texas_perth entry_texas ''TEXAZ/1991'' True False False True
      = Inr 1"
    using TEXAZ_plain_scores by (simp add: two_antigens_def split: sum.splits)
  have refined: "alias_search re_literal texas_perth entry_texas ''TEXAZ/1991'' True True False True
      = Inr 2"
    using TEXAZ_refined_scores by (simp add: two_antigens_def split: sum.splits)
  have "aliased_search re_literal texas_perth two_antigens ''TEXAZ/1991'' True True
      = Inr [entry_texas]"
    using aliased_search_two_passes [OF ne, of re_literal texas_perth "''TEXAZ/1991''" True True]
    unfolding TEXAZ_plain_scores TEXAZ_refined_scores by (simp add: best)
  then show ?thesis using ne plain refined by simp
qed

theorem aliased_search_no_entries_witness:
  "Dataset_init [] None = Inr (\<lparr>data_d = [], entries = [], ids = [], longs = []\<rparr>, [])
   \<and> aliased_search re_literal texas_perth \<lparr>data_d = [], entries = [], ids = [], longs = []\<rparr>
        ''A/TEXAS/1234/1991'' True True = Inl ValueError"
  using aliased_search_no_entries [of "\<lparr>data_d = [], entries = [], ids = [], longs = []\<rparr>"
      re_literal texas_perth "''A/TEXAS/1234/1991''" True True]
  by (simp add: Dataset_init_def)

subsection \<open>The mutation gate of the alias score\<close>

text \<open>
  C2, as stated, fails: the pattern of the code is not \<open>[A-Z]\d{2,3}[A-Z]\<close> but has the
  twenty amino-acid letters on both sides. \<open>B12Z\<close> is a token of the stated pattern that
  occurs in the query and not in the long name, yet the code extracts no token on either
  side and the score is 1.
\<close>

theorem mutation_gate_counterexample:
  "set (mutations capital (split CHR ''/'' ''B12Z/TEXAS''))
     \<noteq> set (mutations capital (name_parts (long entry_texas)))
   \<and> alias_search re_literal texas_perth entry_texas ''B12Z/TEXAS'' True False False True = Inr 1"
  by code_simp

text \<open>
  C2, amended. With \<open>ignore_mutations\<close> false, the tokens found by the code's pattern
  (an amino-acid letter, two or three digits, an amino-acid letter; leftmost matches
  without overlap) are extracted from the \<open>/\<close>-fragments of the query and from the long
  name split on \<open>/\<close>, \<open>_\<close> and \<open>-\<close>; whenever the two sets differ the score is 0,
  whatever else matches, in both the plain and the refined mode.
\<close>

theorem mutation_gate:
  assumes "set (mutations amino_acid (split CHR ''/'' query))
             \<noteq> set (mutations amino_acid (name_parts (long entry)))"
  shows "alias_search re city_list entry query ignore_case refined False regexp = Inr 0"
  using assms by (simp add: alias_search_def)

lemma H275Y_extracted:
  "mutations amino_acid (split CHR ''/'' ''A/TEXAS/1234/1991_H275Y'') = [''H275Y'']
   \<and> mutations amino_acid (name_parts (long entry_texas)) = []"
  by code_simp

theorem mutation_gate_witness:
  "set (mutations amino_acid (split CHR ''/'' ''A/TEXAS/1234/1991_H275Y''))
     \<noteq> set (mutations amino_acid (name_parts (long entry_texas)))
   \<and> alias_search re_literal texas_perth entry_texas ''A/TEXAS/1234/1991_H275Y'' True False
        False True = Inr 0"
proof -
  have differ: "set (mutations amino_acid (split CHR ''/'' ''A/TEXAS/1234/1991_H275Y''))
     \<noteq> set (mutations amino_acid (name_parts (long entry_texas)))"
    using H275Y_extracted by simp
  show ?thesis
    using mutation_gate [OF differ, of re_literal texas_perth True False True] differ by simp
qed

subsection \<open>Deep equality\<close>

text \<open>Every value is deep-equal to itself.\<close>

lemma collect_all_True:
  assumes "\<And>x. x \<in> set xs \<Longrightarrow> f x = Inr True"
  shows "collect (map f xs) = Inr (map (\<lambda>_. True) xs)"
  using assms by (induction xs) simp_all

lemma deep_eq_reflexive: "deep_eq x x = Inr True"
proof (induction x)
  case (PList l)
  have "collect (map (\<lambda>(a, b). deep_eq a b) (zip l l)) = Inr (map (\<lambda>_. True) (zip l l))"
  proof (rule collect_all_True)
    fix p assume member: "p \<in> set (zip l l)"
    obtain a b where p: "p = (a, b)" by (cases p)
    with member have "a \<in> set l" "a = b" by (auto simp: zip_same)
    then show "(case p of (a, b) \<Rightarrow> deep_eq a b) = Inr True" using PList p by simp
  qed
  then show ?case by (simp add: py_iter_def)
next
  case (PDict d)
  let ?ks = "sort (map fst d)"
  have "collect (map (\<lambda>k. case map_of d k of
                            None \<Rightarrow> Inl KeyError
                          | Some a \<Rightarrow> (case map_of d k of
                                         None \<Rightarrow> Inl KeyError
                                       | Some b \<Rightarrow> deep_eq a b)) ?ks)
        = Inr (map (\<lambda>_. True) ?ks)"
  proof (rule collect_all_True)
    fix k assume "k \<in> set ?ks"
    then have "k \<in> fst ` set d" by simp
    then obtain v where v: "map_of d k = Some v" by (cases "map_of d k") (auto simp: map_of_eq_None_iff)
    then have "(k, v) \<in> set d" by (rule map_of_SomeD)
    then have "deep_eq v v = Inr True" using PDict by force
    then show "(case map_of d k of
                  None \<Rightarrow> Inl KeyError
                | Some a \<Rightarrow> (case map_of d k of
                               None \<Rightarrow> Inl KeyError
                             | Some b \<Rightarrow> deep_eq a b)) = Inr True"
      using v by simp
  qed
  then show ?case by (simp add: Let_def)
qed simp_all

text \<open>
  C5. \<open>deep_eq\<close> is reflexive, as the claim says, but it is not symmetric and it does
  iterate a string. The guard against strings only looks at the first argument: a list
  compared with a string iterates the string's characters, so \<open>deep_eq(['a'], 'a')\<close>
  is True while \<open>deep_eq('a', ['a'])\<close> is False.
\<close>

theorem deep_eq_string_in_second_place:
  "deep_eq (PList [PStr ''a'']) (PStr ''a'') = Inr True
   \<and> deep_eq (PStr ''a'') (PList [PStr ''a'']) = Inr False"
  by (simp add: py_iter_def)


subsection \<open>Short-name derivation\<close>






subsection \<open>Lookup by id or long name\<close>

text \<open>The example Dataset is what the constructors build from its two records.\<close>

lemma dataset_A1_A12_loaded:
  "(case Dataset_init [data_e entry_A1, data_e entry_A12] None of
      Inl e \<Rightarrow> Inl e
    | Inr (ds, warnings) \<Rightarrow> load_entries re_literal remdups texas_perth ds)
   = Inr dataset_A1_A12"
  by code_simp

text \<open>
  C7. The claim takes the queried value for the pattern and the entry's field for the
  searched string, as every other search of the repository does. \<open>get_entry\<close> passes
  them to \<open>re.findall\<close> the other way round. On the ids \<open>A1\<close>, \<open>A12\<close> the query
  \<open>A1\<close> returns the entry \<open>A1\<close> alone, though \<open>A1\<close> is found in \<open>A12\<close>; and the
  query \<open>A12\<close> returns both entries, though it is not found in \<open>A1\<close>.
\<close>

theorem get_entry_pattern_is_the_field:
  "get_entry re_literal dataset_A1_A12 ''A1'' ''id'' = Inr [entry_A1]
   \<and> get_entry re_literal dataset_A1_A12 ''A12'' ''id'' = Inr [entry_A1, entry_A12]"
  by code_simp


subsection \<open>Empty ids of the subset\<close>



end
